theory Spec2Isabelle
  imports Main "HOL-Library.Word"
begin

unbundle bit_operations_syntax

section \<open>The pointer-bumping allocator of \<^verbatim>\<open>pb-alloc.c\<close>\<close>

text \<open>
  The allocator is written for a 64-bit target: \<^verbatim>\<open>size_t\<close> is an unsigned and
  \<^verbatim>\<open>intptr_t\<close> a signed 64-bit integer, and a pointer is a 64-bit address. All
  three are \<open>64 word\<close> here; \<open>+\<close>, \<open>-\<close> and \<open>*\<close> wrap, \<open>mod\<close> and \<open>\<le>\<close> are the
  unsigned operations, and \<open>\<le>s\<close>, \<open><s\<close> compare the two's complement readings, as C
  does for two \<^verbatim>\<open>intptr_t\<close> operands. Where C adds an \<^verbatim>\<open>intptr_t\<close> to a
  \<^verbatim>\<open>size_t\<close> the sum is computed unsigned and converted back on assignment, which
  is the identity on the bits.
\<close>

type_synonym addr = "64 word"
type_synonym size_t = "64 word"
type_synonym byte = "8 word"
type_synonym memory = "addr \<Rightarrow> byte"

subsection \<open>Constants\<close>

definition NULL :: addr where
  "NULL = 0"

text \<open>\<^verbatim>\<open>MAP_FAILED\<close> is \<^verbatim>\<open>(void * ) -1\<close>.\<close>

definition MAP_FAILED :: addr where
  "MAP_FAILED = - 1"

text \<open>\<^verbatim>\<open>#define HEAP_SIZE GB(2)\<close>, that is \<^verbatim>\<open>(size_t)2 * 1024 * 1024 * 1024\<close>.\<close>

definition KB :: "size_t \<Rightarrow> size_t" where
  "KB n = n * 1024"

definition MB :: "size_t \<Rightarrow> size_t" where
  "MB n = KB n * 1024"

definition GB :: "size_t \<Rightarrow> size_t" where
  "GB n = MB n * 1024"

definition HEAP_SIZE :: size_t where
  "HEAP_SIZE = GB 2"

text \<open>\<^verbatim>\<open>sizeof(header_s)\<close>: the header is one \<^verbatim>\<open>size_t\<close>.\<close>

definition header_size :: size_t where
  "header_size = 8"

subsection \<open>Memory\<close>

text \<open>
  Memory is a map from addresses to bytes. The header's \<^verbatim>\<open>size\<close> field is stored as
  eight bytes, least significant first.
\<close>

definition store64 :: "memory \<Rightarrow> addr \<Rightarrow> size_t \<Rightarrow> memory" where
  "store64 h a v = (\<lambda>x. if x - a < 8 then ucast (drop_bit (8 * unat (x - a)) v) else h x)"

definition byte_at :: "memory \<Rightarrow> addr \<Rightarrow> nat \<Rightarrow> size_t" where
  "byte_at h a i = push_bit (8 * i) (ucast (h (a + of_nat i)))"

definition load64 :: "memory \<Rightarrow> addr \<Rightarrow> size_t" where
  "load64 h a = byte_at h a 0 OR byte_at h a 1 OR byte_at h a 2 OR byte_at h a 3
     OR byte_at h a 4 OR byte_at h a 5 OR byte_at h a 6 OR byte_at h a 7"

text \<open>
  \<^verbatim>\<open>memset(p, c, n)\<close> and \<^verbatim>\<open>memcpy(dst, src, n)\<close> on the \<open>n\<close> bytes from \<open>p\<close>, resp.
  \<open>dst\<close>, as functions on a memory in which every address can be written; the
  callers check that the bytes are in the reserved region. C leaves \<^verbatim>\<open>memcpy\<close>
  undefined when the two ranges overlap; the model reads every source byte from the
  memory before the call.
\<close>

definition memset :: "memory \<Rightarrow> addr \<Rightarrow> byte \<Rightarrow> size_t \<Rightarrow> memory" where
  "memset h p c n = (\<lambda>x. if x - p < n then c else h x)"

definition memcpy :: "memory \<Rightarrow> addr \<Rightarrow> addr \<Rightarrow> size_t \<Rightarrow> memory" where
  "memcpy h dst src n = (\<lambda>x. if x - dst < n then h (src + (x - dst)) else h x)"

subsection \<open>The heap region\<close>

text \<open>The three globals \<^verbatim>\<open>free_addr\<close>, \<^verbatim>\<open>start_addr\<close>, \<^verbatim>\<open>end_addr\<close>, and the memory.\<close>

record heap =
  free_addr :: addr
  start_addr :: addr
  end_addr :: addr
  mem :: memory

text \<open>
  Two ways in which a call does not return a result: the failed reservation, and a
  \<^verbatim>\<open>memset\<close> or \<^verbatim>\<open>memcpy\<close> that C leaves undefined, because it accesses bytes
  outside the reserved region (which ends the process where the address is not
  mapped) or because it copies between overlapping ranges.
\<close>

datatype error = ReservationFailure | Fault

text \<open>
  The \<open>n\<close> bytes from \<open>p\<close> lie in the reserved region, from \<open>start_addr\<close> up to
  \<open>end_addr\<close>, as addresses and without wrap-around. No byte is accessed when \<open>n\<close>
  is \<open>0\<close>.
\<close>

definition in_region :: "heap \<Rightarrow> addr \<Rightarrow> size_t \<Rightarrow> bool" where
  "in_region s p n \<longleftrightarrow>
     n = 0 \<or> uint (start_addr s) \<le> uint p \<and> uint p + uint n \<le> uint (end_addr s)"

text \<open>The \<open>n\<close> bytes from \<open>p\<close> and the \<open>n\<close> bytes from \<open>q\<close> do not overlap.\<close>

definition apart :: "addr \<Rightarrow> addr \<Rightarrow> size_t \<Rightarrow> bool" where
  "apart p q n \<longleftrightarrow> n = 0 \<or> uint p + uint n \<le> uint q \<or> uint q + uint n \<le> uint p"

text \<open>
  \<^verbatim>\<open>init()\<close>. The answer of \<^verbatim>\<open>mmap\<close> is the parameter \<open>m\<close>: \<open>MAP_FAILED\<close> or the
  address of \<open>HEAP_SIZE\<close> fresh bytes, which the kernel hands out zeroed.

  Modelled from the spec: the macro \<^verbatim>\<open>ERROR\<close> of \<^verbatim>\<open>safeio.h\<close>, which is not among
  the sources. A failed reservation is fatal and the process aborts with a
  diagnostic; here the call, and every call made through it, ends in
  \<open>Inl ReservationFailure\<close>. The macro \<^verbatim>\<open>DEBUG\<close> of the same file only emits a
  diagnostic and has no counterpart in the model.
\<close>

definition init :: "addr \<Rightarrow> heap \<Rightarrow> error + heap" where
  "init m s =
     (if start_addr s = 0 then
        (if m = MAP_FAILED then Inl ReservationFailure
         else Inr (s\<lparr>start_addr := m,
                     end_addr := m + HEAP_SIZE,
                     free_addr := m,
                     mem := memset (mem s) m 0 HEAP_SIZE\<rparr>))
      else Inr s)"

subsection \<open>\<^verbatim>\<open>malloc\<close>\<close>

text \<open>The local \<^verbatim>\<open>padding\<close> of \<^verbatim>\<open>malloc\<close>, as a function of \<^verbatim>\<open>free_addr\<close>.\<close>

definition padding :: "addr \<Rightarrow> size_t" where
  "padding f =
     (let padding = 16 - ((f + header_size) mod 16)
      in if padding = 16 then 0 else padding)"

text \<open>The local \<^verbatim>\<open>new_free_addr\<close> of \<^verbatim>\<open>malloc\<close>.\<close>

definition new_free_addr :: "addr \<Rightarrow> size_t \<Rightarrow> addr" where
  "new_free_addr f sz = (let total_size = sz + header_size in f + padding f + total_size)"

definition malloc :: "addr \<Rightarrow> size_t \<Rightarrow> heap \<Rightarrow> error + (addr \<times> heap)" where
  "malloc m sz s =
     (case init m s of
        Inl e \<Rightarrow> Inl e
      | Inr s1 \<Rightarrow>
          if sz = 0 then Inr (NULL, s1)
          else
            let header_ptr = free_addr s1 + padding (free_addr s1);
                block_ptr = free_addr s1 + padding (free_addr s1) + header_size
            in if end_addr s1 <s new_free_addr (free_addr s1) sz then Inr (NULL, s1)
               else Inr (block_ptr,
                         s1\<lparr>free_addr := new_free_addr (free_addr s1) sz,
                            mem := store64 (mem s1) header_ptr sz\<rparr>))"

subsection \<open>\<^verbatim>\<open>free\<close>\<close>

text \<open>The body of \<^verbatim>\<open>free\<close> is the diagnostic alone.\<close>

definition free :: "addr \<Rightarrow> heap \<Rightarrow> heap" where
  "free ptr s = s"

subsection \<open>\<^verbatim>\<open>calloc\<close>\<close>

text \<open>The \<^verbatim>\<open>memset\<close> over a block that is not inside the reserved region is a \<open>Fault\<close>.\<close>

definition calloc :: "addr \<Rightarrow> size_t \<Rightarrow> size_t \<Rightarrow> heap \<Rightarrow> error + (addr \<times> heap)" where
  "calloc m nmemb sz s =
     (let block_size = nmemb * sz
      in case malloc m block_size s of
           Inl e \<Rightarrow> Inl e
         | Inr (block_ptr, s1) \<Rightarrow>
             if block_ptr \<noteq> NULL
             then
               if in_region s1 block_ptr block_size
               then Inr (block_ptr, s1\<lparr>mem := memset (mem s1) block_ptr 0 block_size\<rparr>)
               else Inl Fault
             else Inr (block_ptr, s1))"

subsection \<open>\<^verbatim>\<open>realloc\<close>\<close>

text \<open>
  The \<^verbatim>\<open>memcpy\<close> is a \<open>Fault\<close> unless the bytes it reads and the bytes it writes
  are inside the reserved region and do not overlap.
\<close>

definition realloc :: "addr \<Rightarrow> addr \<Rightarrow> size_t \<Rightarrow> heap \<Rightarrow> error + (addr \<times> heap)" where
  "realloc m ptr sz s =
     (if ptr = NULL then malloc m sz s
      else if sz = 0 then Inr (NULL, free ptr s)
      else
        let old_header = ptr - header_size;
            old_size = load64 (mem s) old_header
        in if sz \<le> old_size then Inr (ptr, s)
           else
             case malloc m sz s of
               Inl e \<Rightarrow> Inl e
             | Inr (new_ptr, s1) \<Rightarrow>
                 if new_ptr \<noteq> NULL
                 then
                   if in_region s1 new_ptr old_size \<and> in_region s1 ptr old_size \<and>
                      apart new_ptr ptr old_size
                   then Inr (new_ptr,
                             free ptr (s1\<lparr>mem := memcpy (mem s1) new_ptr ptr old_size\<rparr>))
                   else Inl Fault
                 else Inr (new_ptr, s1))"

subsection \<open>States\<close>

text \<open>The globals as the program starts: all three are statically \<open>0\<close>.\<close>

definition fresh :: heap where
  "fresh = \<lparr>free_addr = 0, start_addr = 0, end_addr = 0, mem = (\<lambda>_. 0)\<rparr>"

text \<open>A page-aligned user-space address, standing for an answer of \<^verbatim>\<open>mmap\<close> in the examples.\<close>

definition region :: addr where
  "region = 0x7f0000000000"

text \<open>
  The heap region as the data model describes it: initialised, the three addresses
  positive as \<^verbatim>\<open>intptr_t\<close> (the order the code compares them in),
  \<open>start \<le> frontier \<le> end\<close>, and \<open>end\<close> at \<open>HEAP_SIZE\<close> bytes from \<open>start\<close>.
\<close>

definition heap_inv :: "heap \<Rightarrow> bool" where
  "heap_inv s \<longleftrightarrow>
     0 <s start_addr s \<and> start_addr s \<le>s free_addr s \<and> free_addr s \<le>s end_addr s \<and>
     start_addr s + HEAP_SIZE = end_addr s"

text \<open>
  A block of the heap at payload address \<open>ptr\<close>: its header and the payload of the
  recorded size lie between \<open>start\<close> and the frontier.
\<close>

definition recorded_size :: "heap \<Rightarrow> addr \<Rightarrow> size_t" where
  "recorded_size s ptr = load64 (mem s) (ptr - header_size)"

definition block_of :: "heap \<Rightarrow> addr \<Rightarrow> bool" where
  "block_of s ptr \<longleftrightarrow>
     uint (start_addr s) + uint header_size \<le> uint ptr \<and>
     uint ptr + uint (recorded_size s ptr) \<le> uint (free_addr s)"

text \<open>
  Example states: the heap right after \<open>init region fresh\<close>, and after
  \<open>malloc region 24 fresh\<close>, which hands out the payload address \<open>0x7f0000000010\<close>.
\<close>

definition ready :: heap where
  "ready = \<lparr>free_addr = region, start_addr = region, end_addr = region + HEAP_SIZE,
            mem = memset (\<lambda>_. 0) region 0 HEAP_SIZE\<rparr>"

definition one_block :: heap where
  "one_block = \<lparr>free_addr = 0x7f0000000028, start_addr = region, end_addr = region + HEAP_SIZE,
                mem = store64 (memset (\<lambda>_. 0) region 0 HEAP_SIZE) 0x7f0000000008 24\<rparr>"

section \<open>Arithmetic of 64-bit words\<close>

lemma uint64_less: "uint (w :: 64 word) < 2 ^ 64"
  using uint_lt2p [of w] by simp

lemma uint_add64:
  "uint (a + b :: 64 word) =
     (if uint a + uint b < 2 ^ 64 then uint a + uint b else uint a + uint b - 2 ^ 64)"
  using uint_plus_if' [of a b] by simp

lemma uint_sub64:
  "uint (a - b :: 64 word) =
     (if uint b \<le> uint a then uint a - uint b else uint a - uint b + 2 ^ 64)"
  using uint_sub_if' [of a b] by simp

lemma sint64: "sint (w :: 64 word) = (if uint w < 2 ^ 63 then uint w else uint w - 2 ^ 64)"
proof -
  have b: "0 \<le> uint w" "uint w < 2 ^ 64"
    using uint64_less [of w] by simp_all
  have s: "sint w = (uint w + 2 ^ 63) mod 2 ^ 64 - 2 ^ 63"
    by (simp add: sint_uint signed_take_bit_eq_take_bit_shift take_bit_eq_mod)
  show ?thesis
  proof (cases "uint w < 2 ^ 63")
    case True
    then have "(uint w + 2 ^ 63) mod 2 ^ 64 = uint w + 2 ^ 63"
      using b by (intro mod_pos_pos_trivial) simp_all
    then show ?thesis using True s by simp
  next
    case False
    then have "(uint w + 2 ^ 63) mod 2 ^ 64 = uint w + 2 ^ 63 - 2 ^ 64"
      using b by (simp add: mod_pos_geq)
    then show ?thesis using False s by simp
  qed
qed

lemma sint_nonneg:
  assumes "0 \<le>s (w :: 64 word)"
  shows "sint w = uint w" and "uint w < 2 ^ 63"
proof -
  have "0 \<le> sint w"
    using assms by (simp add: word_sle_eq)
  then show "sint w = uint w" and "uint w < 2 ^ 63"
    using uint64_less [of w] by (simp_all add: sint64 split: if_splits)
qed

lemma mult16_mod16: "(16 * y :: 64 word) mod 16 = 0"
proof -
  have "unat ((16 * y) mod 16) = (16 * unat y mod 2 ^ 64) mod 16"
    by (simp add: unat_mod unat_word_ariths)
  also have "\<dots> = 16 * unat y mod 16"
    by (rule mod_mod_cancel) simp
  finally show ?thesis
    by (simp add: unat_eq_0)
qed

lemma align_up: "(x + (16 - x mod 16)) mod 16 = 0" for x :: "64 word"
proof -
  have "x = x div 16 * 16 + x mod 16"
    by (rule div_mult_mod_eq [symmetric])
  then have "x + (16 - x mod 16) = 16 * (x div 16 + 1)"
    by (simp add: algebra_simps)
  then show ?thesis
    by (simp only: mult16_mod16)
qed

lemma uint_mod16: "uint (x mod 16) = uint x mod 16" for x :: "64 word"
  by (simp add: uint_mod)

lemma uint_add_mod16: "uint (a + b) mod 16 = (uint a + uint b) mod 16" for a b :: "64 word"
proof -
  have "uint (a + b) mod 16 = ((uint a + uint b) mod 2 ^ 64) mod 16"
    by (simp add: uint_word_ariths)
  also have "\<dots> = (uint a + uint b) mod 16"
    by (rule mod_mod_cancel) simp
  finally show ?thesis .
qed

section \<open>The padding\<close>

lemma padding_aligned: "(f + padding f + header_size) mod 16 = 0"
proof (cases "(f + header_size) mod 16 = 0")
  case True
  then show ?thesis
    by (simp add: padding_def)
next
  case False
  then have "padding f = 16 - (f + header_size) mod 16"
    by (simp add: padding_def)
  then have "f + padding f + header_size = (f + header_size) + (16 - (f + header_size) mod 16)"
    by simp
  then show ?thesis
    by (simp only: align_up)
qed

lemma uint_padding: "uint (padding f) = (16 - (uint f + 8) mod 16) mod 16"
proof -
  let ?r = "(f + header_size) mod 16"
  have r: "uint ?r = (uint f + 8) mod 16"
    using uint_add_mod16 [of f header_size] by (simp add: uint_mod16 header_size_def)
  then have lt: "uint ?r < 16"
    by simp
  then have le: "uint ?r \<le> uint (16 :: 64 word)"
    by simp
  have sub: "uint (16 - ?r) = 16 - uint ?r"
    using le by (simp add: uint_sub64)
  show ?thesis
  proof (cases "?r = 0")
    case True
    then show ?thesis
      using r by (simp add: padding_def)
  next
    case False
    then have "uint ?r \<noteq> 0"
      by (simp add: uint_0_iff)
    then have pos: "0 < (uint f + 8) mod 16"
      using r by (simp add: less_le)
    have small: "(16 - (uint f + 8) mod 16) mod 16 = 16 - (uint f + 8) mod 16"
      using pos by (intro mod_pos_pos_trivial) simp_all
    have "padding f = 16 - ?r"
      using False by (simp add: padding_def)
    then have "uint (padding f) = 16 - (uint f + 8) mod 16"
      using sub r by (simp only:)
    then show ?thesis
      by (simp only: small)
  qed
qed

lemma uint_padding_less: "uint (padding f) < 16"
  by (simp add: uint_padding)

section \<open>The heap invariant\<close>

lemma HEAP_SIZE_val: "uint HEAP_SIZE = 2 ^ 31"
  by (simp add: HEAP_SIZE_def GB_def MB_def KB_def)

lemma uint_add_nowrap: "uint a + uint b < 2 ^ 64 \<Longrightarrow> uint (a + b) = uint a + uint b"
  for a b :: "64 word"
  by (simp add: uint_add64)

lemma uint_sub_wrap: "uint a < uint b \<Longrightarrow> uint (a - b) = uint a - uint b + 2 ^ 64"
  for a b :: "64 word"
  by (simp add: uint_sub64)

lemma heap_inv_uint:
  assumes "heap_inv s"
  shows "0 < uint (start_addr s)" and "uint (start_addr s) \<le> uint (free_addr s)"
    and "uint (free_addr s) \<le> uint (end_addr s)"
    and "uint (end_addr s) = uint (start_addr s) + 2 ^ 31"
    and "uint (end_addr s) < 2 ^ 63"
proof -
  from assms have a: "0 < sint (start_addr s)" "sint (start_addr s) \<le> sint (free_addr s)"
    "sint (free_addr s) \<le> sint (end_addr s)" and e: "start_addr s + HEAP_SIZE = end_addr s"
    by (simp_all add: heap_inv_def word_sle_eq word_sless_alt)
  have s: "sint (start_addr s) = uint (start_addr s)" "uint (start_addr s) < 2 ^ 63"
    using a(1) sint_nonneg [of "start_addr s"] by (simp_all add: word_sle_eq)
  have f: "sint (free_addr s) = uint (free_addr s)" "uint (free_addr s) < 2 ^ 63"
    using a(1,2) sint_nonneg [of "free_addr s"] by (simp_all add: word_sle_eq)
  have n: "sint (end_addr s) = uint (end_addr s)" "uint (end_addr s) < 2 ^ 63"
    using a sint_nonneg [of "end_addr s"] by (simp_all add: word_sle_eq)
  show "0 < uint (start_addr s)"
    using a(1) s(1) by simp
  show "uint (start_addr s) \<le> uint (free_addr s)"
    using a(2) s(1) f(1) by simp
  show "uint (free_addr s) \<le> uint (end_addr s)"
    using a(3) f(1) n(1) by simp
  show "uint (end_addr s) < 2 ^ 63"
    by (rule n(2))
  have "uint (start_addr s + HEAP_SIZE) = uint (start_addr s) + 2 ^ 31"
    using s(2) by (simp add: uint_add64 HEAP_SIZE_val)
  then show "uint (end_addr s) = uint (start_addr s) + 2 ^ 31"
    by (simp only: e)
qed

lemma heap_inv_init: "heap_inv s \<Longrightarrow> init m s = Inr s"
  by (auto simp: heap_inv_def init_def)

text \<open>Header and payload address of the next block do not wrap around.\<close>

lemma next_block_uint:
  assumes "heap_inv s"
  shows "uint (free_addr s + padding (free_addr s)) =
          uint (free_addr s) + uint (padding (free_addr s))"
    and "uint (free_addr s + padding (free_addr s) + header_size) =
          uint (free_addr s) + uint (padding (free_addr s)) + 8"
proof -
  let ?f = "free_addr s"
  have f: "uint ?f < 2 ^ 63"
    using heap_inv_uint [OF assms] by linarith
  have p: "uint (padding ?f) < 16"
    by (rule uint_padding_less)
  show hp: "uint (?f + padding ?f) = uint ?f + uint (padding ?f)"
    using f p by (intro uint_add_nowrap) simp
  have "uint (?f + padding ?f + header_size) = uint (?f + padding ?f) + uint header_size"
    using f p hp by (intro uint_add_nowrap) (simp add: header_size_def)
  then show "uint (?f + padding ?f + header_size) = uint ?f + uint (padding ?f) + 8"
    using hp by (simp add: header_size_def)
qed

lemma next_block_nonnull:
  "heap_inv s \<Longrightarrow> free_addr s + padding (free_addr s) + header_size \<noteq> NULL"
proof
  assume h: "heap_inv s" and "free_addr s + padding (free_addr s) + header_size = NULL"
  then have "uint (free_addr s + padding (free_addr s) + header_size) = 0"
    by (simp add: NULL_def)
  then show False
    using next_block_uint(2) [OF h] uint_ge_0 [of "free_addr s"]
      uint_ge_0 [of "padding (free_addr s)"]
    by linarith
qed

section \<open>The paths of \<^verbatim>\<open>malloc\<close>\<close>

lemma malloc_cases:
  assumes "malloc m sz s = Inr (p, s')"
  obtains s1 where "init m s = Inr s1" "sz = 0" "p = NULL" "s' = s1"
  | s1 where "init m s = Inr s1" "sz \<noteq> 0"
      "end_addr s1 <s new_free_addr (free_addr s1) sz" "p = NULL" "s' = s1"
  | s1 where "init m s = Inr s1" "sz \<noteq> 0"
      "\<not> end_addr s1 <s new_free_addr (free_addr s1) sz"
      "p = free_addr s1 + padding (free_addr s1) + header_size"
      "s' = s1\<lparr>free_addr := new_free_addr (free_addr s1) sz,
                mem := store64 (mem s1) (free_addr s1 + padding (free_addr s1)) sz\<rparr>"
  using assms by (auto simp: malloc_def Let_def split: sum.splits if_splits)

lemma sint_small: "uint w < 2 ^ 63 \<Longrightarrow> sint w = uint w" for w :: "64 word"
  by (simp add: sint64)

text \<open>
  What a successful \<open>malloc\<close> does when the sum for the new frontier stays below
  \<open>2 ^ 63\<close>: the block, header and payload, lies between the old frontier and the
  new one, and the heap invariant is kept.
\<close>

lemma malloc_no_wrap:
  assumes "heap_inv s" and "malloc m sz s = Inr (p, s')" and "p \<noteq> NULL"
    and "uint (free_addr s) + uint (padding (free_addr s)) + 8 + uint sz < 2 ^ 63"
  shows "heap_inv s'"
    and "uint (free_addr s) \<le> uint p - 8"
    and "uint (free_addr s') = uint p + uint sz"
    and "start_addr s' = start_addr s" and "end_addr s' = end_addr s"
proof -
  let ?f = "free_addr s"
  note inv = heap_inv_uint [OF assms(1)]
  have i: "init m s = Inr s"
    using assms(1) by (rule heap_inv_init)
  from assms(2,3) i have nz: "sz \<noteq> 0"
    and g: "\<not> end_addr s <s new_free_addr ?f sz"
    and p: "p = ?f + padding ?f + header_size"
    and s': "s' = s\<lparr>free_addr := new_free_addr ?f sz,
                    mem := store64 (mem s) (?f + padding ?f) sz\<rparr>"
    by (auto elim!: malloc_cases)
  have up: "uint p = uint ?f + uint (padding ?f) + 8"
    using next_block_uint(2) [OF assms(1)] p by simp
  have "new_free_addr ?f sz = p + sz"
    by (simp add: new_free_addr_def p ac_simps)
  moreover have "uint (p + sz) = uint p + uint sz"
    using up assms(4) by (intro uint_add_nowrap) simp
  ultimately have nf: "uint (new_free_addr ?f sz) = uint p + uint sz"
    by simp
  then have nf63: "uint (new_free_addr ?f sz) < 2 ^ 63"
    using up assms(4) by simp
  have "sint (new_free_addr ?f sz) \<le> sint (end_addr s)"
    using g by (simp add: word_sless_alt)
  then have le: "uint (new_free_addr ?f sz) \<le> uint (end_addr s)"
    using sint_small [OF nf63] sint_small [OF inv(5)] by simp
  show "uint ?f \<le> uint p - 8"
    using up uint_ge_0 [of "padding ?f"] by linarith
  show "uint (free_addr s') = uint p + uint sz"
    using nf by (simp add: s')
  show "start_addr s' = start_addr s" and "end_addr s' = end_addr s"
    by (simp_all add: s')
  have ge: "uint (start_addr s) \<le> uint (new_free_addr ?f sz)"
    using nf up inv(2) uint_ge_0 [of "padding ?f"] uint_ge_0 [of sz] by linarith
  have s63: "uint (start_addr s) < 2 ^ 63"
    using inv by linarith
  have "start_addr s \<le>s new_free_addr ?f sz"
    using ge sint_small [OF nf63] sint_small [OF s63] by (simp add: word_sle_eq)
  moreover have "new_free_addr ?f sz \<le>s end_addr s"
    using g by (simp add: word_sless_alt word_sle_eq)
  ultimately show "heap_inv s'"
    using assms(1) by (simp add: heap_inv_def s')
qed

text \<open>Of two such allocations in a row, the second block starts where the first ends or later.\<close>

lemma malloc_twice_disjoint:
  assumes "heap_inv s"
    and "malloc m a s = Inr (p, s1)" and "p \<noteq> NULL"
    and "uint (free_addr s) + uint (padding (free_addr s)) + 8 + uint a < 2 ^ 63"
    and "malloc m b s1 = Inr (q, s2)" and "q \<noteq> NULL"
    and "uint (free_addr s1) + uint (padding (free_addr s1)) + 8 + uint b < 2 ^ 63"
  shows "uint p + uint a \<le> uint q - 8"
proof -
  note one = malloc_no_wrap [OF assms(1-4)]
  note two = malloc_no_wrap [OF one(1) assms(5-7)]
  from one(3) two(2) show ?thesis
    by simp
qed

text \<open>
  Exhaustion with the sum read as an integer: when it stays below \<open>2 ^ 63\<close> and is
  beyond \<open>end_addr\<close>, \<open>malloc\<close> returns \<open>NULL\<close> and the heap is as before.
\<close>

lemma malloc_exhausted_int:
  assumes "heap_inv s"
    and "uint (free_addr s) + uint (padding (free_addr s)) + 8 + uint sz < 2 ^ 63"
    and "uint (end_addr s) < uint (free_addr s) + uint (padding (free_addr s)) + 8 + uint sz"
  shows "malloc m sz s = Inr (NULL, s)"
proof -
  let ?f = "free_addr s"
  note inv = heap_inv_uint [OF assms(1)]
  have i: "init m s = Inr s"
    using assms(1) by (rule heap_inv_init)
  have up: "uint (?f + padding ?f + header_size) = uint ?f + uint (padding ?f) + 8"
    by (rule next_block_uint(2) [OF assms(1)])
  have "new_free_addr ?f sz = (?f + padding ?f + header_size) + sz"
    by (simp add: new_free_addr_def ac_simps)
  moreover have "uint ((?f + padding ?f + header_size) + sz) =
      uint (?f + padding ?f + header_size) + uint sz"
    using up assms(2) by (intro uint_add_nowrap) simp
  ultimately have nf: "uint (new_free_addr ?f sz) = uint ?f + uint (padding ?f) + 8 + uint sz"
    using up by simp
  then have "uint (new_free_addr ?f sz) < 2 ^ 63"
    using assms(2) by simp
  then have "sint (new_free_addr ?f sz) = uint (new_free_addr ?f sz)"
    by (rule sint_small)
  moreover have "sint (end_addr s) = uint (end_addr s)"
    using inv(5) by (rule sint_small)
  ultimately have "end_addr s <s new_free_addr ?f sz"
    using nf assms(3) by (simp add: word_sless_alt)
  then show ?thesis
    using i by (simp add: malloc_def)
qed

text \<open>\<open>init\<close> on the fresh globals, answered with a user-space address.\<close>

lemma init_heap_inv:
  assumes "start_addr s = 0" and "m \<noteq> MAP_FAILED" and "0 <s m" and "uint m + 2 ^ 31 < 2 ^ 63"
  shows "\<exists>s'. init m s = Inr s' \<and> heap_inv s' \<and> free_addr s' = start_addr s'"
proof -
  have m63: "uint m < 2 ^ 63"
    using assms(4) uint_ge_0 [of m] by simp
  have e: "uint (m + HEAP_SIZE) = uint m + 2 ^ 31"
    using assms(4) by (simp add: uint_add64 HEAP_SIZE_val)
  then have "uint (m + HEAP_SIZE) < 2 ^ 63"
    using assms(4) by simp
  then have "sint m \<le> sint (m + HEAP_SIZE)"
    using e sint_small [OF m63] sint_small [of "m + HEAP_SIZE"] by simp
  then have "m \<le>s m + HEAP_SIZE"
    by (simp add: word_sle_eq)
  then show ?thesis
    using assms(1-3) by (simp add: init_def heap_inv_def)
qed

section \<open>Memory\<close>

lemma store64_outside: "\<not> x - a < 8 \<Longrightarrow> store64 h a v x = h x"
  by (simp add: store64_def)

lemma memcpy_inside: "i < n \<Longrightarrow> memcpy h dst src n (dst + i) = h (src + i)"
  by (simp add: memcpy_def)

lemma memcpy_outside: "\<not> x - dst < n \<Longrightarrow> memcpy h dst src n x = h x"
  by (simp add: memcpy_def)

text \<open>An address below \<open>a\<close> is not among the \<open>n\<close> bytes from \<open>a\<close>, unless these wrap around.\<close>

lemma below_outside:
  fixes x a n :: "64 word"
  assumes "uint x < uint a" and "uint n + uint a \<le> 2 ^ 64"
  shows "\<not> x - a < n"
proof -
  have "uint (x - a) = uint x - uint a + 2 ^ 64"
    using assms(1) by (rule uint_sub_wrap)
  then have "uint n \<le> uint (x - a)"
    using assms(2) uint_ge_0 [of x] by linarith
  then show ?thesis
    by (simp add: word_less_def)
qed

lemma uint_of_nat_small: "i < 8 \<Longrightarrow> uint (of_nat i :: 64 word) = int i"
  by (simp add: unsigned_of_nat take_bit_nat_eq_self)

lemma store64_inside:
  assumes "i < 8"
  shows "store64 h a v (a + of_nat i) = ucast (drop_bit (8 * i) v)"
proof -
  have u: "unat (of_nat i :: 64 word) = i"
    using assms by (simp add: unat_of_nat)
  then have "(of_nat i :: 64 word) < 8"
    using assms by (simp add: word_less_nat_alt)
  then show ?thesis
    using u by (simp add: store64_def)
qed

lemma bit_byte_at_store64:
  assumes "i < 8"
  shows "bit (byte_at (store64 h a v) a i) n \<longleftrightarrow> 8 * i \<le> n \<and> n < 8 * i + 8 \<and> bit v n"
proof (cases "8 * i \<le> n")
  case True
  then have "8 * i + (n - 8 * i) = n"
    by simp
  then show ?thesis
    using True assms
    by (auto simp add: byte_at_def store64_inside bit_simps dest: bit_imp_le_length)
next
  case False
  then show ?thesis
    by (simp add: byte_at_def bit_simps)
qed

text \<open>The header reads back as it was written.\<close>

lemma load64_store64: "load64 (store64 h a v) a = v"
proof (rule bit_word_eqI)
  fix n :: nat
  assume "n < LENGTH(64)"
  then have n: "n < 64"
    by simp
  have "bit (load64 (store64 h a v) a) n \<longleftrightarrow>
      (n < 8 \<or> 8 \<le> n \<and> n < 16 \<or> 16 \<le> n \<and> n < 24 \<or> 24 \<le> n \<and> n < 32 \<or>
       32 \<le> n \<and> n < 40 \<or> 40 \<le> n \<and> n < 48 \<or> 48 \<le> n \<and> n < 56 \<or>
       56 \<le> n \<and> n < 64) \<and> bit v n"
    unfolding load64_def bit_or_iff
    using bit_byte_at_store64 [of 0 h a v n] bit_byte_at_store64 [of 1 h a v n]
      bit_byte_at_store64 [of 2 h a v n] bit_byte_at_store64 [of 3 h a v n]
      bit_byte_at_store64 [of 4 h a v n] bit_byte_at_store64 [of 5 h a v n]
      bit_byte_at_store64 [of 6 h a v n] bit_byte_at_store64 [of 7 h a v n]
    by (cases "bit v n") simp_all
  moreover have "n < 8 \<or> 8 \<le> n \<and> n < 16 \<or> 16 \<le> n \<and> n < 24 \<or> 24 \<le> n \<and> n < 32 \<or>
       32 \<le> n \<and> n < 40 \<or> 40 \<le> n \<and> n < 48 \<or> 48 \<le> n \<and> n < 56 \<or>
       56 \<le> n \<and> n < 64"
    using n by arith
  ultimately show "bit (load64 (store64 h a v) a) n \<longleftrightarrow> bit v n"
    by simp
qed

lemma load64_cong:
  assumes "\<And>i. i < 8 \<Longrightarrow> h' (a + of_nat i) = h (a + of_nat i)"
  shows "load64 h' a = load64 h a"
  using assms [of 0] assms [of 1] assms [of 2] assms [of 3] assms [of 4] assms [of 5]
    assms [of 6] assms [of 7]
  by (simp add: load64_def byte_at_def)

text \<open>A successful \<open>malloc\<close> records the requested size in the header of the block.\<close>

lemma malloc_records_size:
  assumes "malloc m sz s = Inr (p, s')" and "p \<noteq> NULL"
  shows "recorded_size s' p = sz"
  using assms by (auto elim!: malloc_cases simp: recorded_size_def load64_store64)

section \<open>Alignment\<close>

text \<open>
  C1. A call \<open>malloc sz\<close> with \<open>sz > 0\<close> that returns a non-null pointer returns a
  multiple of 16: the payload address is \<open>frontier + padding + header_size\<close> for the
  frontier the call finds (after \<open>init\<close>). The padding is
  \<open>16 - ((frontier + header_size) mod 16)\<close> with 16 replaced by 0, and for every
  frontier \<open>f\<close> the sum \<open>f + padding f + header_size\<close> is a multiple of 16, as a sum of
  integers as well as in 64-bit arithmetic.
\<close>

theorem malloc_payload_aligned:
  assumes "malloc m sz s = Inr (p, s')" and "sz \<noteq> 0" and "p \<noteq> NULL"
  shows "uint p mod 16 = 0 \<and>
    (\<exists>s1. init m s = Inr s1 \<and> p = free_addr s1 + padding (free_addr s1) + header_size) \<and>
    (\<forall>f. padding f =
            (if 16 - (f + header_size) mod 16 = 16 then 0 else 16 - (f + header_size) mod 16) \<and>
          (uint f + uint (padding f) + uint header_size) mod 16 = 0 \<and>
          uint (f + padding f + header_size) mod 16 = 0)"
proof -
  have al: "uint (f + padding f + header_size) mod 16 = 0" for f
    using padding_aligned [of f] uint_mod16 [of "f + padding f + header_size"] by simp
  have fm: "(uint f + uint (padding f) + uint header_size) mod 16 = 0" for f
  proof -
    have "(uint f + (16 - (uint f + 8) mod 16) mod 16 + 8) mod 16 = 0"
      by presburger
    then show ?thesis
      by (simp add: uint_padding header_size_def)
  qed
  have df: "padding f =
      (if 16 - (f + header_size) mod 16 = 16 then 0 else 16 - (f + header_size) mod 16)" for f
    by (simp add: padding_def)
  from assms obtain s1 where "init m s = Inr s1"
    and "p = free_addr s1 + padding (free_addr s1) + header_size"
    by (auto elim!: malloc_cases simp: NULL_def)
  with al fm df show ?thesis
    by blast
qed

theorem malloc_payload_aligned_witness:
  "malloc region 24 fresh = Inr (0x7f0000000010, one_block) \<and>
   (24 :: size_t) \<noteq> 0 \<and> (0x7f0000000010 :: addr) \<noteq> NULL \<and>
   uint (0x7f0000000010 :: addr) mod 16 = 0"
proof -
  have m: "malloc region 24 fresh = Inr (0x7f0000000010, one_block)"
    by (simp add: malloc_def init_def fresh_def region_def one_block_def MAP_FAILED_def NULL_def
        HEAP_SIZE_def GB_def MB_def KB_def new_free_addr_def padding_def header_size_def
        word_sless_alt)
  have n: "(24 :: size_t) \<noteq> 0" "(0x7f0000000010 :: addr) \<noteq> NULL"
    by (simp_all add: NULL_def)
  from malloc_payload_aligned [OF m n] m n show ?thesis
    by blast
qed

section \<open>Exhaustion\<close>

text \<open>
  The path of the guard. Let \<open>s1\<close> be the heap the call works on (the heap after
  \<open>init\<close>, which is the heap itself once it is initialised). When the 64-bit sum
  \<open>free_addr + padding + header_size + size\<close> is greater than \<open>end_addr\<close> as a signed
  number, \<open>malloc\<close> returns \<open>NULL\<close> and leaves \<open>s1\<close> as it is, and the same call on
  the resulting heap does the same. Lemma \<open>malloc_exhausted_int\<close> gives the condition
  on the sum as an integer, where that sum is below \<open>2 ^ 63\<close>.
\<close>

lemma malloc_guard_no_effect:
  assumes "init m s = Inr s1" and "start_addr s1 \<noteq> 0"
    and "end_addr s1 <s free_addr s1 + padding (free_addr s1) + header_size + sz"
  shows "malloc m sz s = Inr (NULL, s1) \<and> malloc m sz s1 = Inr (NULL, s1)"
proof -
  have g: "end_addr s1 <s new_free_addr (free_addr s1) sz"
    using assms(3) by (simp add: new_free_addr_def ac_simps)
  have i: "init m s1 = Inr s1"
    using assms(2) by (simp add: init_def)
  show ?thesis
    using assms(1) g i by (simp add: malloc_def)
qed

section \<open>Sizes that wrap around\<close>

text \<open>
  \<open>malloc\<close> adds the size to the header size, the padding and the frontier in 64-bit
  arithmetic and compares the sum with \<open>end_addr\<close> as a signed number. For a size
  close to \<open>2 ^ 64\<close> the sum wraps around, and for a size close to \<open>2 ^ 63\<close> it is
  negative; in both cases it is not greater than \<open>end_addr\<close> and the allocation goes
  through.
\<close>

text \<open>
  C2. Two successful allocations do not always get disjoint blocks. On the fresh
  heap \<open>malloc (2 ^ 64 - 8)\<close> returns the non-null address \<open>0x7f0000000010\<close> and
  leaves the frontier at \<open>0x7f0000000008\<close>, the address of the header of that
  block; \<open>malloc 16\<close> right after returns \<open>0x7f0000000010\<close> again and overwrites
  the header: the recorded size of the block turns from \<open>2 ^ 64 - 8\<close> into \<open>16\<close>.
\<close>

theorem malloc_huge_size_overlaps:
  "\<exists>s1 s2. malloc region (- 8) fresh = Inr (0x7f0000000010, s1) \<and>
           malloc region 16 s1 = Inr (0x7f0000000010, s2) \<and>
           (0x7f0000000010 :: addr) \<noteq> NULL \<and>
           free_addr s1 = 0x7f0000000008 \<and>
           recorded_size s1 0x7f0000000010 = - 8 \<and>
           recorded_size s2 0x7f0000000010 = 16"
proof -
  let ?s1 = "\<lparr>free_addr = 0x7f0000000008, start_addr = region, end_addr = region + HEAP_SIZE,
              mem = store64 (mem ready) 0x7f0000000008 (- 8)\<rparr>"
  let ?s2 = "\<lparr>free_addr = 0x7f0000000020, start_addr = region, end_addr = region + HEAP_SIZE,
              mem = store64 (mem ?s1) 0x7f0000000008 16\<rparr>"
  have a: "malloc region (- 8) fresh = Inr (0x7f0000000010, ?s1)"
    by (simp add: malloc_def init_def fresh_def ready_def region_def MAP_FAILED_def NULL_def
        HEAP_SIZE_def GB_def MB_def KB_def new_free_addr_def padding_def header_size_def
        word_sless_alt)
  have b: "malloc region 16 ?s1 = Inr (0x7f0000000010, ?s2)"
    by (simp add: malloc_def init_def region_def NULL_def HEAP_SIZE_def GB_def MB_def KB_def
        new_free_addr_def padding_def header_size_def word_sless_alt)
  have c: "(0x7f0000000010 :: addr) \<noteq> NULL"
    by (simp add: NULL_def)
  have d: "recorded_size ?s1 0x7f0000000010 = - 8"
    by (simp add: recorded_size_def load64_def byte_at_def store64_def header_size_def)
  have e: "recorded_size ?s2 0x7f0000000010 = 16"
    by (simp add: recorded_size_def load64_def byte_at_def store64_def header_size_def)
  have f: "free_addr ?s1 = 0x7f0000000008"
    by simp
  from a b c d e f show ?thesis
    by blast
qed

text \<open>
  C7. The frontier does not always stay between \<open>start_addr\<close> and \<open>end_addr\<close>, and
  it can move backward. After \<open>malloc 32\<close> on the fresh heap the invariant holds and
  the frontier is \<open>0x7f0000000030\<close>; \<open>malloc (2 ^ 64 - 24)\<close> then succeeds and moves
  the frontier back to \<open>0x7f0000000028\<close>. And \<open>malloc (2 ^ 63)\<close> on the fresh heap
  succeeds and leaves the frontier at \<open>0x80007f0000000010\<close>, which is negative as an
  \<^verbatim>\<open>intptr_t\<close> and so below \<open>start_addr\<close>.
\<close>

theorem malloc_huge_size_frontier:
  "\<exists>a b c. malloc region 32 fresh = Inr (0x7f0000000010, a) \<and>
     free_addr a = 0x7f0000000030 \<and> heap_inv a \<and>
     malloc region (- 24) a = Inr (0x7f0000000040, b) \<and>
     free_addr b = 0x7f0000000028 \<and> free_addr b <s free_addr a \<and>
     malloc region (2 ^ 63) fresh = Inr (0x7f0000000010, c) \<and>
     free_addr c = 0x80007f0000000010 \<and> start_addr c = 0x7f0000000000 \<and>
     free_addr c <s start_addr c"
proof -
  let ?a = "\<lparr>free_addr = 0x7f0000000030, start_addr = region, end_addr = region + HEAP_SIZE,
             mem = store64 (mem ready) 0x7f0000000008 32\<rparr>"
  let ?b = "\<lparr>free_addr = 0x7f0000000028, start_addr = region, end_addr = region + HEAP_SIZE,
             mem = store64 (mem ?a) 0x7f0000000038 (- 24)\<rparr>"
  let ?c = "\<lparr>free_addr = 0x80007f0000000010, start_addr = region,
             end_addr = region + HEAP_SIZE,
             mem = store64 (mem ready) 0x7f0000000008 (2 ^ 63)\<rparr>"
  have a: "malloc region 32 fresh = Inr (0x7f0000000010, ?a)"
    by (simp add: malloc_def init_def fresh_def ready_def region_def MAP_FAILED_def NULL_def
        HEAP_SIZE_def GB_def MB_def KB_def new_free_addr_def padding_def header_size_def
        word_sless_alt)
  have b: "malloc region (- 24) ?a = Inr (0x7f0000000040, ?b)"
    by (simp add: malloc_def init_def region_def NULL_def HEAP_SIZE_def GB_def MB_def KB_def
        new_free_addr_def padding_def header_size_def word_sless_alt)
  have c: "malloc region (2 ^ 63) fresh = Inr (0x7f0000000010, ?c)"
    by (simp add: malloc_def init_def fresh_def ready_def region_def MAP_FAILED_def NULL_def
        HEAP_SIZE_def GB_def MB_def KB_def new_free_addr_def padding_def header_size_def
        word_sless_alt)
  have d: "heap_inv ?a"
    by (simp add: heap_inv_def region_def HEAP_SIZE_def GB_def MB_def KB_def
        word_sless_alt word_sle_eq)
  have e: "free_addr ?b <s free_addr ?a" "free_addr ?c <s start_addr ?c"
    by (simp_all add: region_def word_sless_alt)
  have f: "free_addr ?a = 0x7f0000000030" "free_addr ?b = 0x7f0000000028"
    "free_addr ?c = 0x80007f0000000010" "start_addr ?c = 0x7f0000000000"
    by (simp_all add: region_def)
  from a b c d e f show ?thesis
    by blast
qed

text \<open>
  C3. A call whose sum \<open>frontier + padding + header_size + size\<close> is beyond \<open>end\<close>
  does not always return \<open>NULL\<close>. On the initialised, empty heap the sum for
  \<open>malloc (2 ^ 64 - 8)\<close> is beyond \<open>end_addr\<close>, and the call returns the non-null
  address \<open>0x7f0000000010\<close>, moves the frontier from \<open>0x7f0000000000\<close> to
  \<open>0x7f0000000008\<close> and writes the header: the size recorded at that address turns
  from \<open>0\<close> into \<open>2 ^ 64 - 8\<close>.
\<close>

theorem malloc_huge_size_not_exhausted:
  "heap_inv ready \<and>
   uint (end_addr ready) <
     uint (free_addr ready) + uint (padding (free_addr ready)) + uint header_size +
     uint (- 8 :: size_t) \<and>
   (\<exists>s'. malloc region (- 8) ready = Inr (0x7f0000000010, s') \<and>
         (0x7f0000000010 :: addr) \<noteq> NULL \<and>
         free_addr ready = 0x7f0000000000 \<and> free_addr s' = 0x7f0000000008 \<and>
         recorded_size ready 0x7f0000000010 = 0 \<and>
         recorded_size s' 0x7f0000000010 = - 8)"
proof -
  let ?s = "\<lparr>free_addr = 0x7f0000000008, start_addr = region, end_addr = region + HEAP_SIZE,
             mem = store64 (mem ready) 0x7f0000000008 (- 8)\<rparr>"
  have a: "heap_inv ready"
    by (simp add: heap_inv_def ready_def region_def HEAP_SIZE_def GB_def MB_def KB_def
        word_sless_alt word_sle_eq)
  have b: "uint (end_addr ready) <
     uint (free_addr ready) + uint (padding (free_addr ready)) + uint header_size +
     uint (- 8 :: size_t)"
    by (simp add: ready_def region_def HEAP_SIZE_def GB_def MB_def KB_def padding_def
        header_size_def)
  have c: "malloc region (- 8) ready = Inr (0x7f0000000010, ?s)"
    by (simp add: malloc_def init_def ready_def region_def NULL_def HEAP_SIZE_def GB_def MB_def
        KB_def new_free_addr_def padding_def header_size_def word_sless_alt)
  have d: "(0x7f0000000010 :: addr) \<noteq> NULL"
    by (simp add: NULL_def)
  have e: "free_addr ready = 0x7f0000000000" "free_addr ?s = 0x7f0000000008"
    by (simp_all add: ready_def region_def)
  have f: "recorded_size ready 0x7f0000000010 = 0"
    by (simp add: recorded_size_def ready_def region_def load64_def byte_at_def memset_def
        HEAP_SIZE_def GB_def MB_def KB_def header_size_def)
  have g: "recorded_size ?s 0x7f0000000010 = - 8"
    by (simp add: recorded_size_def load64_def byte_at_def store64_def header_size_def)
  from a b c d e f g show ?thesis
    by blast
qed

text \<open>
  C4. A growing \<open>realloc\<close> whose inner \<open>malloc\<close> succeeds does not always hand back
  the bytes of the old block. After \<open>malloc 32\<close>, which returns \<open>0x7f0000000010\<close>,
  and \<open>malloc (2 ^ 64 - 24)\<close>, which moves the frontier back into that block, the
  block still records the size \<open>32\<close> and its byte \<open>24\<close> is \<open>0\<close>. Then
  \<open>realloc 0x7f0000000010 40\<close> returns the non-null address \<open>0x7f0000000030\<close>; the
  inner \<open>malloc\<close> has put the header of the new block on the bytes \<open>24\<close> to \<open>31\<close> of
  the old one, so byte \<open>24\<close> of the old block and of the copy is \<open>40\<close>. Every byte
  read or written is inside the reserved region.
\<close>

theorem realloc_after_huge_size:
  "\<exists>a b s2. malloc region 32 fresh = Inr (0x7f0000000010, a) \<and>
     malloc region (- 24) a = Inr (0x7f0000000040, b) \<and>
     (0x7f0000000010 :: addr) \<noteq> NULL \<and>
     recorded_size b 0x7f0000000010 = 32 \<and> (32 :: size_t) < 40 \<and>
     mem b (0x7f0000000010 + 24) = 0 \<and>
     realloc region 0x7f0000000010 40 b = Inr (0x7f0000000030, s2) \<and>
     (0x7f0000000030 :: addr) \<noteq> NULL \<and>
     mem s2 (0x7f0000000030 + 24) = 40 \<and>
     mem s2 (0x7f0000000010 + 24) = 40"
proof -
  let ?a = "\<lparr>free_addr = 0x7f0000000030, start_addr = region, end_addr = region + HEAP_SIZE,
             mem = store64 (mem ready) 0x7f0000000008 32\<rparr>"
  let ?b = "\<lparr>free_addr = 0x7f0000000028, start_addr = region, end_addr = region + HEAP_SIZE,
             mem = store64 (mem ?a) 0x7f0000000038 (- 24)\<rparr>"
  let ?s1 = "\<lparr>free_addr = 0x7f0000000058, start_addr = region, end_addr = region + HEAP_SIZE,
              mem = store64 (mem ?b) 0x7f0000000028 40\<rparr>"
  let ?s2 = "\<lparr>free_addr = 0x7f0000000058, start_addr = region, end_addr = region + HEAP_SIZE,
              mem = memcpy (mem ?s1) 0x7f0000000030 0x7f0000000010 32\<rparr>"
  have a: "malloc region 32 fresh = Inr (0x7f0000000010, ?a)"
    by (simp add: malloc_def init_def fresh_def ready_def region_def MAP_FAILED_def NULL_def
        HEAP_SIZE_def GB_def MB_def KB_def new_free_addr_def padding_def header_size_def
        word_sless_alt)
  have b: "malloc region (- 24) ?a = Inr (0x7f0000000040, ?b)"
    by (simp add: malloc_def init_def region_def NULL_def HEAP_SIZE_def GB_def MB_def KB_def
        new_free_addr_def padding_def header_size_def word_sless_alt)
  have c: "(0x7f0000000010 :: addr) \<noteq> NULL" "(0x7f0000000030 :: addr) \<noteq> NULL"
    "(32 :: size_t) < 40"
    by (simp_all add: NULL_def)
  have old: "load64 (mem ?b) 0x7f0000000008 = 32"
    by (simp add: load64_def byte_at_def store64_def)
  then have d: "recorded_size ?b 0x7f0000000010 = 32"
    by (simp add: recorded_size_def header_size_def)
  have e: "mem ?b (0x7f0000000010 + 24) = 0"
    by (simp add: store64_def ready_def memset_def region_def HEAP_SIZE_def GB_def MB_def
        KB_def)
  have m: "malloc region 40 ?b = Inr (0x7f0000000030, ?s1)"
    by (simp add: malloc_def init_def region_def NULL_def HEAP_SIZE_def GB_def MB_def KB_def
        new_free_addr_def padding_def header_size_def word_sless_alt)
  have r1: "in_region ?s1 0x7f0000000030 32" "in_region ?s1 0x7f0000000010 32"
    "apart 0x7f0000000030 0x7f0000000010 32"
    by (simp_all add: in_region_def apart_def region_def HEAP_SIZE_def GB_def MB_def KB_def)
  have f: "realloc region 0x7f0000000010 40 ?b = Inr (0x7f0000000030, ?s2)"
    unfolding realloc_def Let_def
    using old m r1 by (simp add: NULL_def header_size_def free_def)
  have g: "mem ?s2 (0x7f0000000030 + 24) = 40" "mem ?s2 (0x7f0000000010 + 24) = 40"
    by (simp_all add: memcpy_def store64_def)
  from a b c d e f g show ?thesis
    by blast
qed

text \<open>
  Where the wrap-around leaves a block that is not inside the reserved region, the
  \<^verbatim>\<open>memset\<close> of \<open>calloc\<close> and the \<^verbatim>\<open>memcpy\<close> of \<open>realloc\<close> are undefined:
  \<open>calloc 1 (2 ^ 64 - 8)\<close> on the fresh heap, and \<open>realloc\<close> to the size
  \<open>2 ^ 64 - 8\<close> of the block of \<open>2 ^ 31 - 24\<close> bytes that fills the heap, whose inner
  \<open>malloc\<close> returns \<open>end_addr\<close>.
\<close>

lemma calloc_huge_size_faults: "calloc region 1 (- 8) fresh = Inl Fault"
proof -
  let ?s = "\<lparr>free_addr = 0x7f0000000008, start_addr = region, end_addr = region + HEAP_SIZE,
             mem = store64 (mem ready) 0x7f0000000008 (- 8)\<rparr>"
  have a: "malloc region (1 * - 8) fresh = Inr (0x7f0000000010, ?s)"
    by (simp add: malloc_def init_def fresh_def ready_def region_def MAP_FAILED_def NULL_def
        HEAP_SIZE_def GB_def MB_def KB_def new_free_addr_def padding_def header_size_def
        word_sless_alt)
  have b: "\<not> in_region ?s 0x7f0000000010 (1 * - 8)"
    by (simp add: in_region_def region_def HEAP_SIZE_def GB_def MB_def KB_def)
  show ?thesis
    unfolding calloc_def Let_def using a b by (simp add: NULL_def)
qed

lemma realloc_huge_size_faults:
  "\<exists>a. malloc region (2 ^ 31 - 24) fresh = Inr (0x7f0000000010, a) \<and>
       heap_inv a \<and> block_of a 0x7f0000000010 \<and>
       recorded_size a 0x7f0000000010 = 2 ^ 31 - 24 \<and>
       (\<exists>s1. malloc region (- 8) a = Inr (0x7f0080000000, s1)) \<and>
       realloc region 0x7f0000000010 (- 8) a = Inl Fault"
proof -
  let ?a = "\<lparr>free_addr = 0x7f007ffffff8, start_addr = region, end_addr = region + HEAP_SIZE,
             mem = store64 (mem ready) 0x7f0000000008 (2 ^ 31 - 24)\<rparr>"
  let ?s1 = "\<lparr>free_addr = 0x7f007ffffff8, start_addr = region, end_addr = region + HEAP_SIZE,
              mem = store64 (mem ?a) 0x7f007ffffff8 (- 8)\<rparr>"
  have a: "malloc region (2 ^ 31 - 24) fresh = Inr (0x7f0000000010, ?a)"
    by (simp add: malloc_def init_def fresh_def ready_def region_def MAP_FAILED_def NULL_def
        HEAP_SIZE_def GB_def MB_def KB_def new_free_addr_def padding_def header_size_def
        word_sless_alt)
  have b: "heap_inv ?a"
    by (simp add: heap_inv_def region_def HEAP_SIZE_def GB_def MB_def KB_def
        word_sless_alt word_sle_eq)
  have old: "load64 (mem ?a) 0x7f0000000008 = 2 ^ 31 - 24"
    by (simp add: load64_store64)
  then have c: "recorded_size ?a 0x7f0000000010 = 2 ^ 31 - 24"
    by (simp add: recorded_size_def header_size_def)
  have d: "block_of ?a 0x7f0000000010"
    unfolding block_of_def c by (simp add: region_def header_size_def)
  have m: "malloc region (- 8) ?a = Inr (0x7f0080000000, ?s1)"
    by (simp add: malloc_def init_def region_def NULL_def HEAP_SIZE_def GB_def MB_def KB_def
        new_free_addr_def padding_def header_size_def word_sless_alt)
  have e: "\<not> in_region ?s1 0x7f0080000000 (2 ^ 31 - 24)"
    by (simp add: in_region_def region_def HEAP_SIZE_def GB_def MB_def KB_def)
  have f: "realloc region 0x7f0000000010 (- 8) ?a = Inl Fault"
    unfolding realloc_def Let_def
    using old m e by (simp add: NULL_def header_size_def)
  from a b c d m f show ?thesis
    by blast
qed

section \<open>\<^verbatim>\<open>realloc\<close>\<close>

text \<open>
  The growing path on well-formed blocks. On an initialised heap let \<open>ptr\<close> be a
  non-null payload address whose block, header and payload of the recorded size,
  lies between \<open>start_addr\<close> and the frontier, let \<open>sz\<close> be greater than the recorded
  size, and let the inner \<open>malloc\<close> return a non-null \<open>new_ptr\<close> whose \<open>sz\<close> bytes
  end at \<open>end_addr\<close> or before. Then \<open>realloc\<close> returns \<open>new_ptr\<close>, which differs
  from \<open>ptr\<close>. Its heap is the one \<open>malloc\<close> left, after a \<open>memcpy\<close> of exactly the
  recorded size from \<open>ptr\<close> to \<open>new_ptr\<close> and after \<open>free ptr\<close>: the first
  recorded-size bytes of the new block are those the old block had, every byte
  outside them is as \<open>malloc\<close> left it, the old block keeps its payload and its
  recorded size, and the new block records \<open>sz\<close>.
\<close>

lemma realloc_grow_copies:
  assumes "heap_inv s" and "ptr \<noteq> NULL" and "block_of s ptr"
    and "recorded_size s ptr < sz"
    and "malloc m sz s = Inr (new_ptr, s1)" and "new_ptr \<noteq> NULL"
    and "uint new_ptr + uint sz \<le> uint (end_addr s)"
  shows "new_ptr \<noteq> ptr \<and>
    (\<exists>s2. realloc m ptr sz s = Inr (new_ptr, s2) \<and>
       s2 = free ptr (s1\<lparr>mem := memcpy (mem s1) new_ptr ptr (recorded_size s ptr)\<rparr>) \<and>
       (\<forall>i. i < recorded_size s ptr \<longrightarrow> mem s2 (new_ptr + i) = mem s (ptr + i)) \<and>
       (\<forall>i. i < recorded_size s ptr \<longrightarrow> mem s2 (ptr + i) = mem s (ptr + i)) \<and>
       (\<forall>a. \<not> a - new_ptr < recorded_size s ptr \<longrightarrow> mem s2 a = mem s1 a) \<and>
       recorded_size s2 ptr = recorded_size s ptr \<and>
       recorded_size s2 new_ptr = sz)"
proof -
  let ?f = "free_addr s"
  let ?old = "recorded_size s ptr"
  let ?hp = "?f + padding ?f"
  let ?s2 = "free ptr (s1\<lparr>mem := memcpy (mem s1) new_ptr ptr ?old\<rparr>)"
  note inv = heap_inv_uint [OF assms(1)]
  have i: "init m s = Inr s"
    using assms(1) by (rule heap_inv_init)
  have nz: "sz \<noteq> 0"
    using assms(4) by auto
  from assms(5,6) i nz have np: "new_ptr = ?f + padding ?f + header_size"
    and s1: "mem s1 = store64 (mem s) ?hp sz"
    and bounds: "start_addr s1 = start_addr s" "end_addr s1 = end_addr s"
    by (auto elim!: malloc_cases)
  have blk: "uint (start_addr s) + 8 \<le> uint ptr" "uint ptr + uint ?old \<le> uint ?f"
    using assms(3) by (simp_all add: block_of_def header_size_def)
  have pad: "0 \<le> uint (padding ?f)" "uint (padding ?f) < 16"
    using uint_padding_less [of ?f] by simp_all
  have hp: "uint ?hp = uint ?f + uint (padding ?f)"
    and unp: "uint new_ptr = uint ?f + uint (padding ?f) + 8"
    using next_block_uint [OF assms(1)] np by simp_all
  have f63: "uint ?f < 2 ^ 63"
    using inv by linarith
  have old0: "0 \<le> uint ?old"
    by simp
  have ptr_le: "uint ptr \<le> uint ?f"
    using blk(2) old0 by linarith
  have room8: "uint (8 :: 64 word) + uint ?hp \<le> 2 ^ 64"
    using hp pad(2) f63 by simp
  have room: "uint ?old + uint new_ptr \<le> 2 ^ 64"
    using unp pad(2) f63 blk inv by simp
  have ne: "new_ptr \<noteq> ptr"
  proof
    assume "new_ptr = ptr"
    then have "uint new_ptr = uint ptr" by simp
    with unp blk(2) pad(1) old0 show False by linarith
  qed
  have lt_sz: "uint ?old < uint sz"
    using assms(4) by (simp add: word_less_def)
  have "uint (start_addr s) \<le> uint new_ptr"
    using unp inv(2) pad(1) by linarith
  moreover have "uint new_ptr + uint ?old \<le> uint (end_addr s)"
    using lt_sz assms(7) by linarith
  ultimately have dst: "in_region s1 new_ptr ?old"
    using bounds by (simp add: in_region_def)
  have "uint (start_addr s) \<le> uint ptr"
    using blk(1) by linarith
  moreover have "uint ptr + uint ?old \<le> uint (end_addr s)"
    using blk(2) inv(3) by linarith
  ultimately have src: "in_region s1 ptr ?old"
    using bounds by (simp add: in_region_def)
  have "uint ptr + uint ?old \<le> uint new_ptr"
    using unp blk(2) pad(1) by linarith
  then have ap: "apart new_ptr ptr ?old"
    by (simp add: apart_def)
  have r: "realloc m ptr sz s = Inr (new_ptr, ?s2)"
    using assms(2,4,5,6) nz dst src ap
    by (simp add: realloc_def recorded_size_def Let_def not_le [symmetric])
  have in_old: "uint (ptr + i) = uint ptr + uint i \<and> uint i < uint ?old" if "i < ?old" for i
  proof -
    have lt: "uint i < uint ?old"
      using that by (simp add: word_less_def)
    have "uint ptr + uint i < 2 ^ 64"
      using lt blk(2) f63 by simp
    then show ?thesis
      using lt by (simp add: uint_add_nowrap)
  qed
  have keep_hdr: "mem s1 (ptr + i) = mem s (ptr + i)" if "i < ?old" for i
  proof -
    have "uint (ptr + i) < uint ?hp"
      using in_old [OF that] blk(2) hp pad(1) by linarith
    then have "\<not> (ptr + i) - ?hp < 8"
      using room8 by (rule below_outside)
    then show ?thesis
      by (simp add: s1 store64_outside)
  qed
  have copied: "mem ?s2 (new_ptr + i) = mem s (ptr + i)" if "i < ?old" for i
    using that keep_hdr [OF that] by (simp add: free_def memcpy_inside)
  have old_kept: "mem ?s2 (ptr + i) = mem s (ptr + i)" if "i < ?old" for i
  proof -
    have "uint (ptr + i) < uint new_ptr"
      using in_old [OF that] blk(2) unp pad(1) by linarith
    then have "\<not> (ptr + i) - new_ptr < ?old"
      using room by (rule below_outside)
    then show ?thesis
      using keep_hdr [OF that] by (simp add: free_def memcpy_outside)
  qed
  have rest: "mem ?s2 a = mem s1 a" if "\<not> a - new_ptr < ?old" for a
    using that by (simp add: free_def memcpy_outside)
  have old_hdr: "recorded_size ?s2 ptr = ?old"
  proof -
    have u8: "uint (ptr - header_size) = uint ptr - 8"
      using blk(1) inv(1) by (simp add: uint_sub64 header_size_def)
    have "mem ?s2 (ptr - header_size + of_nat j) = mem s (ptr - header_size + of_nat j)"
      if "j < 8" for j
    proof -
      have uj: "uint (of_nat j :: 64 word) = int j"
        using that by (rule uint_of_nat_small)
      have "uint (ptr - header_size) + uint (of_nat j :: 64 word) < 2 ^ 64"
        using u8 uj that ptr_le f63 by simp
      then have "uint (ptr - header_size + of_nat j) = uint ptr - 8 + int j"
        using u8 uj by (simp add: uint_add_nowrap)
      then have lt: "uint (ptr - header_size + of_nat j) < uint ?f"
        using that blk(2) old0 by linarith
      have "uint (ptr - header_size + of_nat j) < uint ?hp"
        using lt hp pad(1) by linarith
      then have a: "\<not> (ptr - header_size + of_nat j) - ?hp < 8"
        using room8 by (rule below_outside)
      have "uint (ptr - header_size + of_nat j) < uint new_ptr"
        using lt unp pad(1) by linarith
      then have b: "\<not> (ptr - header_size + of_nat j) - new_ptr < ?old"
        using room by (rule below_outside)
      show ?thesis
        using a b by (simp add: free_def memcpy_outside s1 store64_outside)
    qed
    then have "load64 (mem ?s2) (ptr - header_size) = load64 (mem s) (ptr - header_size)"
      by (rule load64_cong)
    then show ?thesis
      by (simp add: recorded_size_def)
  qed
  have new_hdr: "recorded_size ?s2 new_ptr = sz"
  proof -
    have h: "new_ptr - header_size = ?hp"
      by (simp add: np)
    have "mem ?s2 (?hp + of_nat j) = mem s1 (?hp + of_nat j)" if "j < 8" for j
    proof -
      have uj: "uint (of_nat j :: 64 word) = int j"
        using that by (rule uint_of_nat_small)
      have "uint ?hp + uint (of_nat j :: 64 word) < 2 ^ 64"
        using hp uj that pad(2) f63 by simp
      then have "uint (?hp + of_nat j) = uint ?hp + int j"
        using uj by (simp add: uint_add_nowrap)
      then have "uint (?hp + of_nat j) < uint new_ptr"
        using that hp unp by linarith
      then have "\<not> (?hp + of_nat j) - new_ptr < ?old"
        using room by (rule below_outside)
      then show ?thesis
        by (simp add: free_def memcpy_outside)
    qed
    then have "load64 (mem ?s2) ?hp = load64 (mem s1) ?hp"
      by (rule load64_cong)
    then show ?thesis
      by (simp add: recorded_size_def h s1 load64_store64)
  qed
  from ne r copied old_kept rest old_hdr new_hdr show ?thesis
    by blast
qed

text \<open>
  C5. On an initialised heap, \<open>realloc ptr sz\<close> with \<open>ptr\<close> non-null and \<open>sz\<close> greater
  than the recorded size of the block, whose inner \<open>malloc\<close> returns \<open>NULL\<close>, returns
  \<open>NULL\<close> and leaves the heap as it was: the header of the block, its payload and
  the frontier are those of before the call.
\<close>

theorem realloc_grow_fails:
  assumes "heap_inv s" and "ptr \<noteq> NULL" and "recorded_size s ptr < sz"
    and "malloc m sz s = Inr (NULL, s1)"
  shows "realloc m ptr sz s = Inr (NULL, s) \<and> s1 = s"
proof -
  have i: "init m s = Inr s"
    using assms(1) by (rule heap_inv_init)
  have "s1 = s"
    using assms(4) i next_block_nonnull [OF assms(1)]
    by (auto elim!: malloc_cases)
  moreover have "\<not> sz \<le> recorded_size s ptr"
    using assms(3) by simp
  moreover have "sz \<noteq> 0"
    using assms(3) by auto
  ultimately show ?thesis
    using assms(2,4) by (simp add: realloc_def recorded_size_def)
qed

theorem realloc_grow_fails_witness:
  "heap_inv one_block \<and> (0x7f0000000010 :: addr) \<noteq> NULL \<and>
   recorded_size one_block 0x7f0000000010 < 2 ^ 31 \<and>
   malloc region (2 ^ 31) one_block = Inr (NULL, one_block) \<and>
   realloc region 0x7f0000000010 (2 ^ 31) one_block = Inr (NULL, one_block)"
proof -
  have a: "heap_inv one_block"
    by (simp add: heap_inv_def one_block_def region_def HEAP_SIZE_def GB_def MB_def KB_def
        word_sless_alt word_sle_eq)
  have b: "(0x7f0000000010 :: addr) \<noteq> NULL"
    by (simp add: NULL_def)
  have "recorded_size one_block 0x7f0000000010 = 24"
    by (simp add: recorded_size_def one_block_def load64_def byte_at_def store64_def
        header_size_def)
  then have c: "recorded_size one_block 0x7f0000000010 < 2 ^ 31"
    by simp
  have d: "malloc region (2 ^ 31) one_block = Inr (NULL, one_block)"
    by (simp add: malloc_def init_def one_block_def region_def HEAP_SIZE_def GB_def MB_def
        KB_def new_free_addr_def padding_def header_size_def word_sless_alt)
  from realloc_grow_fails [OF a b c d] a b c d show ?thesis
    by blast
qed

text \<open>
  C6. \<open>realloc ptr sz\<close> with \<open>ptr\<close> non-null and \<open>0 < sz \<le>\<close> the recorded size of the
  block returns \<open>ptr\<close> itself and leaves the whole heap as it was: nothing is
  copied, the header keeps the recorded size, the frontier stays.
\<close>

theorem realloc_within_size:
  assumes "ptr \<noteq> NULL" and "sz \<noteq> 0" and "sz \<le> recorded_size s ptr"
  shows "realloc m ptr sz s = Inr (ptr, s)"
  using assms by (simp add: realloc_def recorded_size_def)

theorem realloc_within_size_witness:
  "(0x7f0000000010 :: addr) \<noteq> NULL \<and> (20 :: size_t) \<noteq> 0 \<and>
   20 \<le> recorded_size one_block 0x7f0000000010 \<and>
   realloc region 0x7f0000000010 20 one_block = Inr (0x7f0000000010, one_block)"
proof -
  have a: "(0x7f0000000010 :: addr) \<noteq> NULL" "(20 :: size_t) \<noteq> 0"
    by (simp_all add: NULL_def)
  have "recorded_size one_block 0x7f0000000010 = 24"
    by (simp add: recorded_size_def one_block_def load64_def byte_at_def store64_def
        header_size_def)
  then have c: "20 \<le> recorded_size one_block 0x7f0000000010"
    by simp
  from realloc_within_size [OF a c] a c show ?thesis
    by blast
qed

section \<open>\<^verbatim>\<open>calloc\<close>\<close>

text \<open>A block that \<open>malloc\<close> hands out without wrap-around is inside the reserved region.\<close>

lemma malloc_no_wrap_in_region:
  assumes "heap_inv s" and "malloc m sz s = Inr (p, s')" and "p \<noteq> NULL"
    and "uint (free_addr s) + uint (padding (free_addr s)) + 8 + uint sz < 2 ^ 63"
  shows "in_region s' p sz"
proof -
  note nw = malloc_no_wrap [OF assms]
  note inv = heap_inv_uint [OF assms(1)]
  note inv' = heap_inv_uint [OF nw(1)]
  have "uint (start_addr s') \<le> uint p"
    using nw(2,4) inv(2) by simp
  moreover have "uint p + uint sz \<le> uint (end_addr s')"
    using nw(3) inv'(3) by simp
  ultimately show ?thesis
    by (simp add: in_region_def)
qed

text \<open>
  C8. \<open>calloc nmemb sz\<close> passes the total \<open>nmemb * sz\<close>, the product modulo \<open>2 ^ 64\<close>,
  to \<open>malloc\<close>. When \<open>malloc\<close> returns a non-null pointer \<open>p\<close> to a block inside the
  reserved region, \<open>calloc\<close> returns \<open>p\<close> and each of the \<open>nmemb * sz\<close> bytes from
  \<open>p\<close> is zero; the other bytes, the frontier and the bounds are those \<open>malloc\<close>
  left. When the block is not inside the reserved region the \<^verbatim>\<open>memset\<close> is
  undefined and \<open>calloc\<close> returns nothing. When \<open>malloc\<close> returns \<open>NULL\<close>, \<open>calloc\<close>
  returns \<open>NULL\<close> with the heap \<open>malloc\<close> left, nothing zeroed. So whenever \<open>calloc\<close>
  returns a non-null pointer, it is the one \<open>malloc\<close> returned and the bytes are
  zero.
\<close>

theorem calloc_zeroed:
  assumes "malloc m (nmemb * sz) s = Inr (p, s1)"
  shows "unat (nmemb * sz) = (unat nmemb * unat sz) mod 2 ^ 64 \<and>
    (p \<noteq> NULL \<and> in_region s1 p (nmemb * sz) \<longrightarrow>
      (\<exists>s'. calloc m nmemb sz s = Inr (p, s') \<and>
            (\<forall>i. i < nmemb * sz \<longrightarrow> mem s' (p + i) = 0) \<and>
            (\<forall>a. \<not> a - p < nmemb * sz \<longrightarrow> mem s' a = mem s1 a) \<and>
            free_addr s' = free_addr s1 \<and> start_addr s' = start_addr s1 \<and>
            end_addr s' = end_addr s1)) \<and>
    (p \<noteq> NULL \<and> \<not> in_region s1 p (nmemb * sz) \<longrightarrow>
      calloc m nmemb sz s = Inl Fault) \<and>
    (p = NULL \<longrightarrow> calloc m nmemb sz s = Inr (NULL, s1)) \<and>
    (\<forall>q s'. calloc m nmemb sz s = Inr (q, s') \<and> q \<noteq> NULL \<longrightarrow>
      q = p \<and> in_region s1 p (nmemb * sz) \<and>
      (\<forall>i. i < nmemb * sz \<longrightarrow> mem s' (q + i) = 0))"
proof -
  have t: "unat (nmemb * sz) = (unat nmemb * unat sz) mod 2 ^ 64"
    by (simp add: unat_word_ariths)
  show ?thesis
  proof (cases "p = NULL")
    case True
    then show ?thesis
      using assms t by (simp add: calloc_def)
  next
    case False
    show ?thesis
    proof (cases "in_region s1 p (nmemb * sz)")
      case True
      then show ?thesis
        using assms t \<open>p \<noteq> NULL\<close> by (simp add: calloc_def memset_def)
    next
      case False
      then show ?thesis
        using assms t \<open>p \<noteq> NULL\<close> by (simp add: calloc_def)
    qed
  qed
qed

theorem calloc_zeroed_witness:
  "malloc region (2 * 3) fresh =
     Inr (0x7f0000000010,
          \<lparr>free_addr = 0x7f0000000016, start_addr = region, end_addr = region + HEAP_SIZE,
           mem = store64 (memset (\<lambda>_. 0) region 0 HEAP_SIZE) 0x7f0000000008 6\<rparr>) \<and>
   (0x7f0000000010 :: addr) \<noteq> NULL \<and>
   in_region
     \<lparr>free_addr = 0x7f0000000016, start_addr = region, end_addr = region + HEAP_SIZE,
      mem = store64 (memset (\<lambda>_. 0) region 0 HEAP_SIZE) 0x7f0000000008 6\<rparr>
     0x7f0000000010 (2 * 3) \<and>
   (\<exists>s'. calloc region 2 3 fresh = Inr (0x7f0000000010, s') \<and> mem s' (0x7f0000000010 + 5) = 0)"
proof -
  let ?s1 = "\<lparr>free_addr = 0x7f0000000016, start_addr = region, end_addr = region + HEAP_SIZE,
              mem = store64 (memset (\<lambda>_. 0) region 0 HEAP_SIZE) 0x7f0000000008 6\<rparr>"
  have a: "malloc region (2 * 3) fresh = Inr (0x7f0000000010, ?s1)"
    by (simp add: malloc_def init_def fresh_def region_def MAP_FAILED_def NULL_def HEAP_SIZE_def
        GB_def MB_def KB_def new_free_addr_def padding_def header_size_def word_sless_alt)
  have b: "(0x7f0000000010 :: addr) \<noteq> NULL" "(5 :: size_t) < 2 * 3"
    by (simp_all add: NULL_def)
  have c: "in_region ?s1 0x7f0000000010 (2 * 3)"
    by (simp add: in_region_def region_def HEAP_SIZE_def GB_def MB_def KB_def)
  from calloc_zeroed [OF a] a b c show ?thesis
    by blast
qed

text \<open>
  C10. When the product of \<open>nmemb\<close> and \<open>sz\<close> is \<open>0\<close> modulo \<open>2 ^ 64\<close>, \<open>calloc\<close>
  returns \<open>NULL\<close> on the heap that \<open>init\<close> leaves (and ends as \<open>init\<close> does where the
  reservation fails): the total is the wrapped product, and \<open>malloc\<close> returns \<open>NULL\<close>
  for a total of \<open>0\<close>. The witness is \<open>nmemb = sz = 2 ^ 32\<close>.
\<close>

theorem calloc_zero_total:
  assumes "(unat nmemb * unat sz) mod 2 ^ 64 = 0"
  shows "calloc m nmemb sz s = (case init m s of Inl e \<Rightarrow> Inl e | Inr s1 \<Rightarrow> Inr (NULL, s1))"
proof -
  have "unat (nmemb * sz) = 0"
    using assms by (simp add: unat_word_ariths)
  then have "nmemb * sz = 0"
    by (simp add: unat_eq_0)
  then show ?thesis
    by (simp add: calloc_def malloc_def split: sum.splits)
qed

theorem calloc_zero_total_witness:
  "(unat (2 ^ 32 :: size_t) * unat (2 ^ 32 :: size_t)) mod 2 ^ 64 = 0 \<and>
   calloc region (2 ^ 32) (2 ^ 32) fresh = Inr (NULL, ready)"
proof -
  have h: "(unat (2 ^ 32 :: size_t) * unat (2 ^ 32 :: size_t)) mod 2 ^ 64 = 0"
    by simp
  show ?thesis
    using h calloc_zero_total [OF h, of region fresh]
    by (simp add: init_def fresh_def ready_def region_def MAP_FAILED_def)
qed

section \<open>\<^verbatim>\<open>free\<close>\<close>

text \<open>
  C9. \<open>free ptr\<close> leaves the heap as it is, for every \<open>ptr\<close> and for \<open>NULL\<close>: the
  frontier, the bounds and every byte of memory, headers and payloads alike.
\<close>

theorem free_no_effect:
  "free ptr s = s \<and> free NULL s = s \<and> free_addr (free ptr s) = free_addr s \<and>
   start_addr (free ptr s) = start_addr s \<and> end_addr (free ptr s) = end_addr s \<and>
   mem (free ptr s) = mem s"
  by (simp add: free_def)

end
